theory Spec2Isabelle
  imports Main
begin

section \<open>The View of defx (rplugin/python3/defx/view.py)\<close>

text \<open>
  A shallow embedding of class \<open>View\<close>.  Python exceptions are values of type
  \<open>error\<close>; a method that only reads the View returns \<open>error + 'a\<close>, a method that
  mutates it returns \<open>(error \<times> view) + view\<close>, where \<open>Inl (e, v)\<close> is the exception
  \<open>e\<close> together with the state \<open>v\<close> the View is in when it is raised.
\<close>

subsection \<open>Data\<close>

datatype error =
    KeyError string
  | IndexError
  | CollaboratorError string
  | NotADefx

text \<open>
  \<open>CollaboratorError\<close> is an exception raised by code outside view.py.  \<open>NotADefx\<close> is
  the model's own: it answers a slot number that names no \<open>Defx\<close> object of the View.
\<close>

text \<open>
  A candidate is a Python dict.  The View reads and writes three keys of it:
  \<open>'action__path'\<close>, \<open>'_defx_index'\<close> and \<open>'is_selected'\<close>; a key that is not in the
  dict is \<open>None\<close>.  Every other key is opaque to the View and kept in \<open>attrs\<close>.
  The dict \<open>{}\<close> is \<open>empty_candidate\<close>.
\<close>

record candidate =
  action__path :: "string option"
  defx_index :: "int option"
  is_selected :: "bool option"
  attrs :: "(string \<times> string) list"

definition empty_candidate :: candidate where
  "empty_candidate =
     \<lparr>action__path = None, defx_index = None, is_selected = None, attrs = []\<rparr>"

text \<open>The part of the editor (\<open>self._vim\<close>) the View reads and writes.\<close>

record host =
  filetype :: string
  modifiable :: bool
  modified :: bool
  buffer_lines :: "string list"
  cursor_line :: int
  cursor_col :: int

text \<open>
  A \<open>Defx\<close> object, one per root path: \<open>_index\<close>, \<open>_cwd\<close> and the dict
  \<open>_cursor_history\<close>.
\<close>

record defx =
  index :: int
  cwd :: string
  cursor_history :: "string \<rightharpoonup> string"

record column =
  name :: string
  col_length :: int
  start :: int
  end_col :: int
  syntax_name :: string

record ctx =
  search :: string
  targets :: "candidate list"
  args :: "string list"
  cursor :: int

record view =
  vim :: host
  candidates :: "candidate list"
  selected_candidates :: "int list"
  view_context :: ctx
  defxs :: "defx list"
  columns :: "column list"

text \<open>
  The collaborators whose code is outside view.py, taken as parameters:
  \<open>Defx.get_root_candidate\<close>, \<open>Defx.gather_candidates\<close>, \<open>Defx.cd\<close> (which may raise),
  \<open>Column.get\<close> and \<open>defx.action.do_action\<close>.  A \<open>Defx\<close> object handed to the
  action dispatcher is named by its slot in \<open>self._defxs\<close>.
\<close>

record env =
  get_root_candidate :: "defx \<Rightarrow> candidate"
  gather_candidates :: "defx \<Rightarrow> candidate list"
  defx_cd :: "defx \<Rightarrow> string \<Rightarrow> error + defx"
  column_get :: "column \<Rightarrow> ctx \<Rightarrow> candidate \<Rightarrow> string"
  action_do_action :: "view \<Rightarrow> nat \<Rightarrow> string \<Rightarrow> ctx \<Rightarrow> (error \<times> view) + view"

subsection \<open>Python list indexing\<close>

text \<open>\<open>xs[i]\<close>: a negative index counts from the end, an index out of range raises.\<close>

definition norm_index :: "'a list \<Rightarrow> int \<Rightarrow> int" where
  "norm_index xs i = (if i < 0 then i + int (length xs) else i)"

definition in_range :: "'a list \<Rightarrow> int \<Rightarrow> bool" where
  "in_range xs i = (0 \<le> norm_index xs i \<and> norm_index xs i < int (length xs))"

definition py_index :: "'a list \<Rightarrow> int \<Rightarrow> error + 'a" where
  "py_index xs i =
     (if in_range xs i then Inr (xs ! nat (norm_index xs i)) else Inl IndexError)"

subsection \<open>Columns (View.__init__, lines 37-44)\<close>

text \<open>
  The loop over the column objects: \<open>start\<close> is the running offset, \<open>acc\<close> is
  \<open>self._columns\<close>.  \<open>__init__\<close> runs it from \<open>start = 1\<close> on \<open>[Mark, Filename]\<close>.
\<close>

fun init_columns_loop :: "int \<Rightarrow> column list \<Rightarrow> column list \<Rightarrow> column list" where
  "init_columns_loop st acc [] = acc"
| "init_columns_loop st acc (c # cs) =
     init_columns_loop (st + col_length c)
       (acc @ [c\<lparr>start := st,
                 end_col := st + col_length c - 1,
                 syntax_name := ''Defx_'' @ name c\<rparr>])
       cs"

definition init_columns :: "column list \<Rightarrow> column list" where
  "init_columns cs = init_columns_loop 1 [] cs"

subsection \<open>get_cursor_candidate (lines 142-146)\<close>

definition get_cursor_candidate :: "view \<Rightarrow> int \<Rightarrow> error + candidate" where
  "get_cursor_candidate v cur =
     (if int (length (candidates v)) < cur then Inr empty_candidate
      else py_index (candidates v) (cur - 1))"

subsection \<open>init_candidates (lines 97-108)\<close>

text \<open>
  Lines 102-103: every candidate of one session receives the session's \<open>_index\<close>.
  The dicts a session returns are taken to be distinct objects, so that writing a key
  of one candidate changes no other.
\<close>

definition tag_candidates :: "int \<Rightarrow> candidate list \<Rightarrow> candidate list" where
  "tag_candidates i cs = map (\<lambda>c. c\<lparr>defx_index := Some i\<rparr>) cs"

text \<open>Lines 98-104: the loop over \<open>self._defxs\<close>; \<open>acc\<close> is \<open>self._candidates\<close>.\<close>

fun gather_loop :: "env \<Rightarrow> candidate list \<Rightarrow> defx list \<Rightarrow> candidate list" where
  "gather_loop e acc [] = acc"
| "gather_loop e acc (d # ds) =
     gather_loop e
       (acc @ tag_candidates (index d) (get_root_candidate e d # gather_candidates e d))
       ds"

text \<open>
  Lines 107-108: \<open>self._candidates[index]['is_selected'] = True\<close> for every index of
  \<open>self._selected_candidates\<close>.  The subscript raises \<open>IndexError\<close> out of range; the
  marks made before it stay.
\<close>

fun select_loop :: "candidate list \<Rightarrow> int list \<Rightarrow> (error \<times> candidate list) + candidate list" where
  "select_loop cs [] = Inr cs"
| "select_loop cs (i # js) =
     (if in_range cs i
      then select_loop
             (cs[nat (norm_index cs i) :=
                   (cs ! nat (norm_index cs i))\<lparr>is_selected := Some True\<rparr>]) js
      else Inl (IndexError, cs))"

definition init_candidates :: "env \<Rightarrow> view \<Rightarrow> (error \<times> view) + view" where
  "init_candidates e v =
     (case select_loop (gather_loop e [] (defxs v)) (selected_candidates v) of
        Inl (err, cs) \<Rightarrow> Inl (err, v\<lparr>candidates := cs\<rparr>)
      | Inr cs \<Rightarrow> Inr (v\<lparr>candidates := cs\<rparr>))"

subsection \<open>search_file (lines 168-175)\<close>

text \<open>
  The scan returns the line number handed to \<open>cursor\<close>, or \<open>None\<close> when the loop ends
  without a call.  \<open>and\<close> evaluates \<open>candidate['action__path']\<close> only when the index
  matches.
\<close>

fun search_file_loop :: "candidate list \<Rightarrow> string \<Rightarrow> int \<Rightarrow> int \<Rightarrow> error + int option" where
  "search_file_loop [] path i linenr = Inr None"
| "search_file_loop (c # cs) path i linenr =
     (case defx_index c of
        None \<Rightarrow> Inl (KeyError ''_defx_index'')
      | Some j \<Rightarrow>
          if j = i
          then (case action__path c of
                  None \<Rightarrow> Inl (KeyError ''action__path'')
                | Some p \<Rightarrow>
                    if p = path then Inr (Some linenr)
                    else search_file_loop cs path i (linenr + 1))
          else search_file_loop cs path i (linenr + 1))"

definition search_file :: "view \<Rightarrow> string \<Rightarrow> int \<Rightarrow> (error \<times> view) + view" where
  "search_file v path i =
     (case search_file_loop (candidates v) path i 1 of
        Inl err \<Rightarrow> Inl (err, v)
      | Inr None \<Rightarrow> Inr v
      | Inr (Some l) \<Rightarrow> Inr (v\<lparr>vim := (vim v)\<lparr>cursor_line := l, cursor_col := 1\<rparr>\<rparr>))"

subsection \<open>get_columns_text and redraw (lines 110-140)\<close>

definition get_columns_text :: "env \<Rightarrow> view \<Rightarrow> ctx \<Rightarrow> candidate \<Rightarrow> string" where
  "get_columns_text e v cx c =
     foldl (\<lambda>text col. text @ column_get e col cx c) [] (columns v)"

text \<open>
  \<open>self._vim.call('line', '.')\<close> is \<open>cursor_line\<close>.  What the editor does to its cursor
  when the buffer's lines are replaced is not modelled: \<open>cursor_line\<close> changes only by
  a call of \<open>cursor\<close>.
\<close>

definition redraw :: "env \<Rightarrow> bool \<Rightarrow> view \<Rightarrow> (error \<times> view) + view" where
  "redraw e is_force v =
     (if filetype (vim v) \<noteq> ''defx'' then Inr v
      else
        case get_cursor_candidate v (cursor_line (vim v)) of
          Inl err \<Rightarrow> Inl (err, v)
        | Inr prev \<Rightarrow>
            (case (if is_force then init_candidates e (v\<lparr>selected_candidates := []\<rparr>)
                   else Inr v) of
               Inl ev \<Rightarrow> Inl ev
             | Inr v1 \<Rightarrow>
                 let h1 = (vim v1)\<lparr>modifiable := True\<rparr>;
                     h2 = h1\<lparr>buffer_lines :=
                            map (get_columns_text e v1 (view_context v1)) (candidates v1)\<rparr>;
                     h3 = h2\<lparr>modifiable := False, modified := False\<rparr>;
                     v2 = v1\<lparr>vim := h3\<rparr>
                 in
                   if prev \<noteq> empty_candidate
                   then (case action__path prev of
                           None \<Rightarrow> Inl (KeyError ''action__path'', v2)
                         | Some p \<Rightarrow>
                             (case defx_index prev of
                                None \<Rightarrow> Inl (KeyError ''_defx_index'', v2)
                              | Some i \<Rightarrow> search_file v2 p i))
                   else Inr v2))"

subsection \<open>get_selected_candidates (lines 148-155)\<close>

text \<open>\<open>[self._candidates[x] for x in self._selected_candidates]\<close>\<close>

fun index_all :: "candidate list \<Rightarrow> int list \<Rightarrow> error + candidate list" where
  "index_all cs [] = Inr []"
| "index_all cs (x # xs) =
     (case py_index cs x of
        Inl err \<Rightarrow> Inl err
      | Inr c \<Rightarrow>
          (case index_all cs xs of
             Inl err \<Rightarrow> Inl err
           | Inr r \<Rightarrow> Inr (c # r)))"

text \<open>\<open>[x for x in candidates if x['_defx_index'] == index]\<close>\<close>

fun filter_index :: "int \<Rightarrow> candidate list \<Rightarrow> error + candidate list" where
  "filter_index i [] = Inr []"
| "filter_index i (x # xs) =
     (case defx_index x of
        None \<Rightarrow> Inl (KeyError ''_defx_index'')
      | Some j \<Rightarrow>
          (case filter_index i xs of
             Inl err \<Rightarrow> Inl err
           | Inr r \<Rightarrow> Inr (if j = i then x # r else r)))"

definition get_selected_candidates :: "view \<Rightarrow> int \<Rightarrow> int \<Rightarrow> error + candidate list" where
  "get_selected_candidates v cur i =
     (case (if selected_candidates v = []
            then (case get_cursor_candidate v cur of
                    Inl err \<Rightarrow> Inl err
                  | Inr c \<Rightarrow> Inr [c])
            else index_all (candidates v) (selected_candidates v)) of
        Inl err \<Rightarrow> Inl err
      | Inr cs \<Rightarrow> filter_index i cs)"

subsection \<open>cd (lines 157-166)\<close>

text \<open>
  The \<open>Defx\<close> object \<open>defx\<close> is the one in slot \<open>k\<close> of \<open>self._defxs\<close>.  \<open>history\<close> is
  the dict \<open>defx._cursor_history\<close> as the View wrote it on line 160: the Tree Session
  does not write to it, and a \<open>Defx.cd\<close> that raises leaves its object as it was.
\<close>

definition cd :: "env \<Rightarrow> view \<Rightarrow> nat \<Rightarrow> string \<Rightarrow> int \<Rightarrow> (error \<times> view) + view" where
  "cd e v k path cur =
     (if length (defxs v) \<le> k then Inl (NotADefx, v)
      else
        let d = defxs v ! k in
        case get_cursor_candidate v cur of
          Inl err \<Rightarrow> Inl (err, v)
        | Inr c \<Rightarrow>
            (case action__path c of
               None \<Rightarrow> Inl (KeyError ''action__path'', v)
             | Some p \<Rightarrow>
                 let history = (cursor_history d)(cwd d \<mapsto> p);
                     d1 = d\<lparr>cursor_history := history\<rparr>;
                     v1 = v\<lparr>defxs := (defxs v)[k := d1]\<rparr>
                 in
                   (case defx_cd e d1 path of
                      Inl err \<Rightarrow> Inl (err, v1)
                    | Inr d2 \<Rightarrow>
                        (case redraw e True (v1\<lparr>defxs := (defxs v1)[k := d2]\<rparr>) of
                           Inl ev \<Rightarrow> Inl ev
                         | Inr v3 \<Rightarrow>
                             (case (case history path of
                                      None \<Rightarrow> Inr v3
                                    | Some h \<Rightarrow> search_file v3 h (index d2)) of
                                Inl ev \<Rightarrow> Inl ev
                              | Inr v4 \<Rightarrow> Inr (v4\<lparr>selected_candidates := []\<rparr>))))))"

subsection \<open>do_action (lines 177-197)\<close>

text \<open>
  A call of the action dispatcher: the slot of the \<open>Defx\<close> object, the action name and
  the context handed over.  The loop returns, beside its outcome, the calls it made.
  Python's list iterator reads slot after slot and stops at the end of the list.
\<close>

type_synonym call = "nat \<times> string \<times> ctx"

fun do_action_loop ::
  "env \<Rightarrow> string \<Rightarrow> string list \<Rightarrow> int \<Rightarrow> nat list \<Rightarrow> view \<Rightarrow> call list
   \<Rightarrow> ((error \<times> view) + view) \<times> call list" where
  "do_action_loop e an aa cur [] v calls = (Inr v, calls)"
| "do_action_loop e an aa cur (k # ks) v calls =
     (if length (defxs v) \<le> k then (Inr v, calls)
      else
        case get_selected_candidates v cur (index (defxs v ! k)) of
          Inl err \<Rightarrow> (Inl (err, v), calls)
        | Inr ts \<Rightarrow>
            if ts = [] then do_action_loop e an aa cur ks v calls
            else
              let cx = (view_context v)\<lparr>targets := ts, args := aa, cursor := cur\<rparr> in
              (case action_do_action e v k an cx of
                 Inl ev \<Rightarrow> (Inl ev, calls @ [(k, an, cx)])
               | Inr v' \<Rightarrow> do_action_loop e an aa cur ks v' (calls @ [(k, an, cx)])))"

definition do_action ::
  "env \<Rightarrow> view \<Rightarrow> string \<Rightarrow> string list \<Rightarrow> (string \<rightharpoonup> int)
   \<Rightarrow> ((error \<times> view) + view) \<times> call list" where
  "do_action e v an aa new_context =
     (if candidates v = [] then (Inr v, [])
      else
        case new_context ''cursor'' of
          None \<Rightarrow> (Inl (KeyError ''cursor'', v), [])
        | Some cur \<Rightarrow> do_action_loop e an aa cur [0..<length (defxs v)] v [])"

subsection \<open>Dispatch as the specification describes it\<close>

text \<open>
  The specification (4.5, 7) in its own words, for comparison with \<open>do_action\<close>: given
  the targets \<open>ts k\<close> of every session and the sessions \<open>ks\<close> that have at least one, the
  dispatcher is invoked once for each session of \<open>ks\<close>, in order, each call on the View
  as the call before left it, with a context that carries the session's targets, the
  action's arguments and the cursor; a call that fails ends the dispatch, the sessions
  after it are not called and the calls made are not rolled back.
\<close>

fun dispatch_in_order ::
  "env \<Rightarrow> string \<Rightarrow> string list \<Rightarrow> int \<Rightarrow> (nat \<Rightarrow> candidate list) \<Rightarrow> nat list \<Rightarrow> view
   \<Rightarrow> call list \<Rightarrow> ((error \<times> view) + view) \<times> call list" where
  "dispatch_in_order e an aa cur ts [] w calls = (Inr w, calls)"
| "dispatch_in_order e an aa cur ts (k # ks) w calls =
     (case action_do_action e w k an
             ((view_context w)\<lparr>targets := ts k, args := aa, cursor := cur\<rparr>) of
        Inl ev \<Rightarrow>
          (Inl ev, calls @ [(k, an, (view_context w)\<lparr>targets := ts k, args := aa, cursor := cur\<rparr>)])
      | Inr w' \<Rightarrow>
          dispatch_in_order e an aa cur ts ks w'
            (calls @ [(k, an, (view_context w)\<lparr>targets := ts k, args := aa, cursor := cur\<rparr>)]))"

text \<open>What a call hands over beside the rest of the context.\<close>

definition call_summary :: "call \<Rightarrow> nat \<times> string \<times> candidate list \<times> string list \<times> int" where
  "call_summary c =
     (fst c, fst (snd c), targets (snd (snd c)), args (snd (snd c)), cursor (snd (snd c)))"

subsection \<open>A View of two sessions\<close>

text \<open>
  Two sessions, rooted at \<open>/a\<close> (children \<open>/a/1\<close>, \<open>/a/2\<close>) and at \<open>/b\<close> (child
  \<open>/b/1\<close>), and collaborators for them: a Tree Session that knows these two
  directories, a column that prints the path, a dispatcher that moves the cursor to
  column 2.
\<close>

definition ex_entry :: "string \<Rightarrow> candidate" where
  "ex_entry p = \<lparr>action__path = Some p, defx_index = None, is_selected = Some False, attrs = []\<rparr>"

definition ex_tagged :: "string \<Rightarrow> int \<Rightarrow> candidate" where
  "ex_tagged p i = \<lparr>action__path = Some p, defx_index = Some i, is_selected = Some False, attrs = []\<rparr>"

definition ex_env :: env where
  "ex_env =
     \<lparr>get_root_candidate = (\<lambda>d. ex_entry (cwd d)),
      gather_candidates =
        (\<lambda>d. if cwd d = ''/a'' then [ex_entry ''/a/1'', ex_entry ''/a/2'']
              else if cwd d = ''/b'' then [ex_entry ''/b/1'']
              else []),
      defx_cd =
        (\<lambda>d p. if p = ''/a'' \<or> p = ''/b'' then Inr (d\<lparr>cwd := p\<rparr>)
                else Inl (CollaboratorError ''no such directory'')),
      column_get = (\<lambda>col cx c. case action__path c of None \<Rightarrow> [] | Some p \<Rightarrow> p),
      action_do_action = (\<lambda>v k an cx. Inr (v\<lparr>vim := (vim v)\<lparr>cursor_col := 2\<rparr>\<rparr>))\<rparr>"

text \<open>The same collaborators with a dispatcher whose every call fails.\<close>

definition ex_env_failing :: env where
  "ex_env_failing =
     ex_env\<lparr>action_do_action := (\<lambda>v k an cx. Inl (CollaboratorError ''action failed'', v))\<rparr>"

definition ex_host :: host where
  "ex_host =
     \<lparr>filetype = ''defx'', modifiable = False, modified = False, buffer_lines = [],
      cursor_line = 1, cursor_col = 1\<rparr>"

definition ex_ctx :: ctx where
  "ex_ctx = \<lparr>search = [], targets = [], args = [], cursor = 0\<rparr>"

definition ex_defxs :: "defx list" where
  "ex_defxs =
     [\<lparr>index = 0, cwd = ''/a'', cursor_history = Map.empty\<rparr>,
      \<lparr>index = 1, cwd = ''/b'', cursor_history = Map.empty\<rparr>]"

definition ex_columns :: "column list" where
  "ex_columns =
     [\<lparr>name = ''filename'', col_length = 100, start = 1, end_col = 100,
       syntax_name = ''Defx_filename''\<rparr>]"

definition ex_candidates :: "candidate list" where
  "ex_candidates =
     [ex_tagged ''/a'' 0, ex_tagged ''/a/1'' 0, ex_tagged ''/a/2'' 0,
      ex_tagged ''/b'' 1, ex_tagged ''/b/1'' 1]"

definition ex_view :: view where
  "ex_view =
     \<lparr>vim = ex_host, candidates = ex_candidates, selected_candidates = [],
      view_context = ex_ctx, defxs = ex_defxs, columns = ex_columns\<rparr>"

section \<open>Properties\<close>

subsection \<open>Columns\<close>

lemma init_columns_loop_length:
  "length (init_columns_loop st acc cs) = length acc + length cs"
  by (induction cs arbitrary: st acc) auto

lemma init_columns_loop_acc:
  "i < length acc \<Longrightarrow> init_columns_loop st acc cs ! i = acc ! i"
  by (induction cs arbitrary: st acc) (auto simp: nth_append)

lemma init_columns_loop_nth:
  "i < length cs \<Longrightarrow>
   init_columns_loop st acc cs ! (length acc + i) =
     (cs ! i)\<lparr>start := st + sum_list (map col_length (take i cs)),
              end_col := st + sum_list (map col_length (take i cs)) + col_length (cs ! i) - 1,
              syntax_name := ''Defx_'' @ name (cs ! i)\<rparr>"
proof (induction cs arbitrary: st acc i)
  case Nil
  then show ?case by simp
next
  case (Cons c cs)
  show ?case
  proof (cases i)
    case 0
    then show ?thesis
      using init_columns_loop_acc [of "length acc" "acc @ [c\<lparr>start := st,
                 end_col := st + col_length c - 1,
                 syntax_name := ''Defx_'' @ name c\<rparr>]" "st + col_length c" cs]
      by simp
  next
    case (Suc j)
    with Cons.prems have j: "j < length cs" by simp
    from Cons.IH [OF j, of "st + col_length c" "acc @ [c\<lparr>start := st,
                 end_col := st + col_length c - 1,
                 syntax_name := ''Defx_'' @ name c\<rparr>]"]
    show ?thesis using Suc by (simp add: algebra_simps)
  qed
qed

lemma init_columns_nth:
  "i < length cs \<Longrightarrow>
   init_columns cs ! i =
     (cs ! i)\<lparr>start := 1 + sum_list (map col_length (take i cs)),
              end_col := sum_list (map col_length (take i cs)) + col_length (cs ! i),
              syntax_name := ''Defx_'' @ name (cs ! i)\<rparr>"
  using init_columns_loop_nth [of i cs 1 "[]"] by (simp add: init_columns_def)

lemma init_columns_length: "length (init_columns cs) = length cs"
  by (simp add: init_columns_def init_columns_loop_length)

text \<open>
  C8.  For every list of columns with declared widths, the spans computed by the loop of
  \<open>__init__\<close> are contiguous: there are as many spans as columns, the first span starts
  at 1, every span ends at its start plus its width minus 1, and every later span starts
  one past the end of the span before it.  For three columns of widths \<open>w0\<close>, \<open>w1\<close>, \<open>w2\<close>
  the spans are \<open>[1, w0]\<close>, \<open>[w0+1, w0+w1]\<close>, \<open>[w0+w1+1, w0+w1+w2]\<close>.
\<close>

theorem column_spans_contiguous:
  "length (init_columns cs) = length cs
   \<and> (cs \<noteq> [] \<longrightarrow> start (init_columns cs ! 0) = 1)
   \<and> (\<forall>i < length cs.
         col_length (init_columns cs ! i) = col_length (cs ! i)
         \<and> end_col (init_columns cs ! i) =
             start (init_columns cs ! i) + col_length (cs ! i) - 1)
   \<and> (\<forall>i. Suc i < length cs \<longrightarrow>
         start (init_columns cs ! Suc i) = end_col (init_columns cs ! i) + 1)
   \<and> map (\<lambda>c. (start c, end_col c))
         (init_columns [a\<lparr>col_length := w0\<rparr>, b\<lparr>col_length := w1\<rparr>, c\<lparr>col_length := w2\<rparr>])
       = [(1, w0), (w0 + 1, w0 + w1), (w0 + w1 + 1, w0 + w1 + w2)]"
proof (intro conjI allI impI)
  show "length (init_columns cs) = length cs" by (rule init_columns_length)
next
  assume "cs \<noteq> []"
  then have "0 < length cs" by simp
  from init_columns_nth [OF this] show "start (init_columns cs ! 0) = 1" by simp
next
  fix i assume i: "i < length cs"
  from init_columns_nth [OF i]
  show "col_length (init_columns cs ! i) = col_length (cs ! i)" by simp
next
  fix i assume i: "i < length cs"
  from init_columns_nth [OF i]
  show "end_col (init_columns cs ! i) =
          start (init_columns cs ! i) + col_length (cs ! i) - 1" by simp
next
  fix i assume s: "Suc i < length cs"
  then have i: "i < length cs" by simp
  have "take (Suc i) cs = take i cs @ [cs ! i]"
    using i by (simp add: take_Suc_conv_app_nth)
  then show "start (init_columns cs ! Suc i) = end_col (init_columns cs ! i) + 1"
    using init_columns_nth [OF s] init_columns_nth [OF i] by simp
next
  show "map (\<lambda>c. (start c, end_col c))
         (init_columns [a\<lparr>col_length := w0\<rparr>, b\<lparr>col_length := w1\<rparr>, c\<lparr>col_length := w2\<rparr>])
       = [(1, w0), (w0 + 1, w0 + w1), (w0 + w1 + 1, w0 + w1 + w2)]"
    by (simp add: init_columns_def)
qed

text \<open>The two columns of \<open>__init__\<close>, with widths 2 and 100.\<close>

theorem column_spans_contiguous_witness:
  "map (\<lambda>c. (start c, end_col c))
     (init_columns
        [\<lparr>name = ''mark'', col_length = 2, start = 0, end_col = 0, syntax_name = []\<rparr>,
         \<lparr>name = ''filename'', col_length = 100, start = 0, end_col = 0, syntax_name = []\<rparr>])
   = [(1, 2), (3, 102)]
   \<and> start (init_columns
        [\<lparr>name = ''mark'', col_length = 2, start = 0, end_col = 0, syntax_name = []\<rparr>,
         \<lparr>name = ''filename'', col_length = 100, start = 0, end_col = 0, syntax_name = []\<rparr>] ! Suc 0)
     = end_col (init_columns
        [\<lparr>name = ''mark'', col_length = 2, start = 0, end_col = 0, syntax_name = []\<rparr>,
         \<lparr>name = ''filename'', col_length = 100, start = 0, end_col = 0, syntax_name = []\<rparr>] ! 0) + 1"
  using column_spans_contiguous
    [of "[\<lparr>name = ''mark'', col_length = 2, start = 0, end_col = 0, syntax_name = []\<rparr>,
          \<lparr>name = ''filename'', col_length = 100, start = 0, end_col = 0, syntax_name = []\<rparr>]"]
  by (simp add: init_columns_def)

subsection \<open>The cursor and the scan\<close>

text \<open>
  C9.  For every non-empty aggregated sequence, \<open>get_cursor_candidate\<close> at line 0 does
  not return the absent candidate: the length check lets 0 through and the index
  \<open>0 - 1 = -1\<close> reads the last candidate of the sequence.
\<close>

theorem cursor_zero_is_last:
  "candidates v \<noteq> [] \<Longrightarrow> get_cursor_candidate v 0 = Inr (last (candidates v))"
  by (simp add: get_cursor_candidate_def py_index_def in_range_def norm_index_def
      last_conv_nth nat_diff_distrib' of_nat_diff)

theorem cursor_zero_is_last_witness:
  "candidates ex_view \<noteq> [] \<and> get_cursor_candidate ex_view 0 = Inr (ex_tagged ''/b/1'' 1)"
  using cursor_zero_is_last [of ex_view]
  by (simp add: ex_view_def ex_candidates_def)

lemma get_cursor_candidate_in_range:
  "1 \<le> l \<Longrightarrow> l \<le> int (length (candidates v)) \<Longrightarrow>
   get_cursor_candidate v l = Inr (candidates v ! nat (l - 1))"
  by (simp add: get_cursor_candidate_def py_index_def in_range_def norm_index_def)

lemma search_file_loop_found:
  "search_file_loop cs path i n = Inr (Some l) \<Longrightarrow>
   n \<le> l \<and> l < n + int (length cs)
   \<and> action__path (cs ! nat (l - n)) = Some path
   \<and> defx_index (cs ! nat (l - n)) = Some i
   \<and> (\<forall>j < nat (l - n). \<not> (defx_index (cs ! j) = Some i \<and> action__path (cs ! j) = Some path))"
proof (induction cs arbitrary: n)
  case Nil
  then show ?case by simp
next
  case (Cons c cs)
  show ?case
  proof (cases "defx_index c = Some i \<and> action__path c = Some path")
    case True
    with Cons.prems have "l = n" by simp
    with True show ?thesis by simp
  next
    case False
    with Cons.prems have rest: "search_file_loop cs path i (n + 1) = Inr (Some l)"
      by (auto split: option.splits if_splits)
    from Cons.IH [OF rest] have ih: "n + 1 \<le> l" "l < n + 1 + int (length cs)"
      "action__path (cs ! nat (l - (n + 1))) = Some path"
      "defx_index (cs ! nat (l - (n + 1))) = Some i"
      "\<forall>j < nat (l - (n + 1)). \<not> (defx_index (cs ! j) = Some i \<and> action__path (cs ! j) = Some path)"
      by simp_all
    from ih(1) have eq: "nat (l - n) = Suc (nat (l - (n + 1)))" by simp
    show ?thesis
    proof (intro conjI allI impI)
      show "n \<le> l" using ih(1) by simp
      show "l < n + int (length (c # cs))" using ih(2) by simp
      show "action__path ((c # cs) ! nat (l - n)) = Some path" using ih(3) eq by simp
      show "defx_index ((c # cs) ! nat (l - n)) = Some i" using ih(4) eq by simp
    next
      fix j assume j: "j < nat (l - n)"
      show "\<not> (defx_index ((c # cs) ! j) = Some i \<and> action__path ((c # cs) ! j) = Some path)"
      proof (cases j)
        case 0
        with False show ?thesis by simp
      next
        case (Suc j')
        with j eq have "j' < nat (l - (n + 1))" by simp
        with ih(5) Suc show ?thesis by simp
      qed
    qed
  qed
qed

lemma search_file_loop_no_match:
  "\<forall>c \<in> set cs. \<not> (defx_index c = Some i \<and> action__path c = Some path) \<Longrightarrow>
   search_file_loop cs path i n \<noteq> Inr (Some l)"
  by (induction cs arbitrary: n) (auto split: option.splits)

lemma search_file_loop_total:
  "\<forall>c \<in> set cs. defx_index c \<noteq> None \<and> action__path c \<noteq> None \<Longrightarrow>
   \<exists>r. search_file_loop cs path i n = Inr r"
  by (induction cs arbitrary: n) auto

text \<open>
  C6.  Whenever the scan of \<open>search_file\<close> for \<open>path\<close> and session \<open>i\<close> stops at a line
  \<open>l\<close> (and \<open>search_file\<close> puts the cursor there), \<open>get_cursor_candidate\<close> at \<open>l\<close> returns
  a candidate whose path is \<open>path\<close> and whose owner is \<open>i\<close>; and no line before \<open>l\<close> holds
  such a candidate, so duplicates resolve to the lowest line number.
\<close>

theorem locate_then_candidate_at:
  assumes "search_file_loop (candidates v) path i 1 = Inr (Some l)"
  shows "search_file v path i = Inr (v\<lparr>vim := (vim v)\<lparr>cursor_line := l, cursor_col := 1\<rparr>\<rparr>)
    \<and> (\<exists>c. get_cursor_candidate v l = Inr c
           \<and> action__path c = Some path \<and> defx_index c = Some i)
    \<and> (\<forall>l'. 1 \<le> l' \<and> l' < l \<longrightarrow>
           (\<exists>c'. get_cursor_candidate v l' = Inr c'
              \<and> \<not> (defx_index c' = Some i \<and> action__path c' = Some path)))"
proof -
  from search_file_loop_found [OF assms]
  have b: "1 \<le> l" "l \<le> int (length (candidates v))"
    and hit: "action__path (candidates v ! nat (l - 1)) = Some path"
      "defx_index (candidates v ! nat (l - 1)) = Some i"
    and first: "\<forall>j < nat (l - 1).
        \<not> (defx_index (candidates v ! j) = Some i \<and> action__path (candidates v ! j) = Some path)"
    by simp_all
  have "search_file v path i = Inr (v\<lparr>vim := (vim v)\<lparr>cursor_line := l, cursor_col := 1\<rparr>\<rparr>)"
    using assms by (simp add: search_file_def)
  moreover have "\<exists>c. get_cursor_candidate v l = Inr c
           \<and> action__path c = Some path \<and> defx_index c = Some i"
    using get_cursor_candidate_in_range [OF b] hit by simp
  moreover have "\<forall>l'. 1 \<le> l' \<and> l' < l \<longrightarrow>
           (\<exists>c'. get_cursor_candidate v l' = Inr c'
              \<and> \<not> (defx_index c' = Some i \<and> action__path c' = Some path))"
  proof (intro allI impI)
    fix l' assume l': "1 \<le> l' \<and> l' < l"
    then have "l' \<le> int (length (candidates v))" using b by simp
    with l' have g: "get_cursor_candidate v l' = Inr (candidates v ! nat (l' - 1))"
      by (simp add: get_cursor_candidate_in_range)
    from l' have "nat (l' - 1) < nat (l - 1)" by simp
    with first g show "\<exists>c'. get_cursor_candidate v l' = Inr c'
              \<and> \<not> (defx_index c' = Some i \<and> action__path c' = Some path)"
      by simp
  qed
  ultimately show ?thesis by simp
qed

theorem locate_then_candidate_at_witness:
  "search_file_loop (candidates ex_view) ''/a/2'' 0 1 = Inr (Some 3)
   \<and> search_file ex_view ''/a/2'' 0
       = Inr (ex_view\<lparr>vim := (vim ex_view)\<lparr>cursor_line := 3, cursor_col := 1\<rparr>\<rparr>)
   \<and> (\<exists>c. get_cursor_candidate ex_view 3 = Inr c
          \<and> action__path c = Some ''/a/2'' \<and> defx_index c = Some 0)"
proof -
  have h: "search_file_loop (candidates ex_view) ''/a/2'' 0 1 = Inr (Some 3)"
    by (simp add: ex_view_def ex_candidates_def ex_tagged_def)
  from locate_then_candidate_at [OF h] h show ?thesis by simp
qed

text \<open>
  C10.  When no candidate of the aggregated sequence has path \<open>path\<close> and owner \<open>i\<close>,
  \<open>search_file\<close> makes no call of \<open>cursor\<close>: whether it returns or raises a
  \<open>KeyError\<close> on a candidate without a key, the View and with it the cursor of the
  editor are what they were before the call; and it returns when every candidate has
  both keys.
\<close>

theorem search_file_no_match_keeps_cursor:
  assumes "\<forall>c \<in> set (candidates v). \<not> (defx_index c = Some i \<and> action__path c = Some path)"
  shows "(search_file v path i = Inr v \<or> (\<exists>err. search_file v path i = Inl (err, v)))
    \<and> ((\<forall>c \<in> set (candidates v). defx_index c \<noteq> None \<and> action__path c \<noteq> None)
         \<longrightarrow> search_file v path i = Inr v)"
proof -
  have no: "\<And>l. search_file_loop (candidates v) path i 1 \<noteq> Inr (Some l)"
    using search_file_loop_no_match [OF assms] by simp
  have one: "search_file v path i = Inr v \<or> (\<exists>err. search_file v path i = Inl (err, v))"
  proof (cases "search_file_loop (candidates v) path i 1")
    case (Inl err)
    then show ?thesis by (simp add: search_file_def)
  next
    case (Inr r)
    with no have "r = None" by (cases r) auto
    with Inr show ?thesis by (simp add: search_file_def)
  qed
  have two: "search_file v path i = Inr v"
    if "\<forall>c \<in> set (candidates v). defx_index c \<noteq> None \<and> action__path c \<noteq> None"
  proof -
    from search_file_loop_total [OF that] obtain r
      where r: "search_file_loop (candidates v) path i 1 = Inr r" by blast
    with no have "r = None" by (cases r) auto
    with r show ?thesis by (simp add: search_file_def)
  qed
  from one two show ?thesis by blast
qed

theorem search_file_no_match_keeps_cursor_witness:
  "search_file ex_view ''/b/1'' 0 = Inr ex_view
   \<and> cursor_line (vim ex_view) = 1"
proof -
  have h: "\<forall>c \<in> set (candidates ex_view).
             \<not> (defx_index c = Some 0 \<and> action__path c = Some ''/b/1'')"
    by (simp add: ex_view_def ex_candidates_def ex_tagged_def)
  have k: "\<forall>c \<in> set (candidates ex_view). defx_index c \<noteq> None \<and> action__path c \<noteq> None"
    by (simp add: ex_view_def ex_candidates_def ex_tagged_def)
  from search_file_no_match_keeps_cursor [OF h] k
  show ?thesis by (simp add: ex_view_def ex_host_def)
qed

subsection \<open>The aggregated sequence\<close>

lemma gather_loop_concat:
  "gather_loop e acc ds =
     acc @ concat (map (\<lambda>d. tag_candidates (index d)
                              (get_root_candidate e d # gather_candidates e d)) ds)"
  by (induction ds arbitrary: acc) simp_all

text \<open>
  C4.  For every list of sessions, the sequence built by the loop of \<open>init_candidates\<close>
  is the concatenation, in the order of \<open>self._defxs\<close>, of each session's root candidate
  followed by the candidates the session gathers, in the session's order, every one
  tagged with the \<open>_index\<close> of its session; with an empty selection \<open>init_candidates\<close>
  stores exactly this sequence.  For the sessions \<open>/a\<close> (children \<open>/a/1\<close>, \<open>/a/2\<close>) and
  \<open>/b\<close> (child \<open>/b/1\<close>) the sequence is \<open>[/a, /a/1, /a/2, /b, /b/1]\<close> with owners
  \<open>[0, 0, 0, 1, 1]\<close>, and \<open>search_file\<close> for \<open>/b/1\<close> in session 1 puts the cursor on
  line 5.
\<close>

theorem aggregated_sequence_is_concatenation:
  "gather_loop e [] ds =
     concat (map (\<lambda>d. map (\<lambda>c. c\<lparr>defx_index := Some (index d)\<rparr>)
                         (get_root_candidate e d # gather_candidates e d)) ds)
   \<and> init_candidates e (v\<lparr>selected_candidates := []\<rparr>) =
       Inr (v\<lparr>selected_candidates := [],
              candidates :=
                concat (map (\<lambda>d. map (\<lambda>c. c\<lparr>defx_index := Some (index d)\<rparr>)
                                   (get_root_candidate e d # gather_candidates e d))
                          (defxs v))\<rparr>)
   \<and> init_candidates ex_env (ex_view\<lparr>candidates := []\<rparr>) = Inr ex_view
   \<and> map action__path (candidates ex_view) =
       [Some ''/a'', Some ''/a/1'', Some ''/a/2'', Some ''/b'', Some ''/b/1'']
   \<and> map defx_index (candidates ex_view) = [Some 0, Some 0, Some 0, Some 1, Some 1]
   \<and> search_file_loop (candidates ex_view) ''/b/1'' 1 1 = Inr (Some 5)
   \<and> search_file ex_view ''/b/1'' 1 =
       Inr (ex_view\<lparr>vim := (vim ex_view)\<lparr>cursor_line := 5, cursor_col := 1\<rparr>\<rparr>)"
proof (intro conjI)
  show g: "gather_loop e [] ds =
     concat (map (\<lambda>d. map (\<lambda>c. c\<lparr>defx_index := Some (index d)\<rparr>)
                         (get_root_candidate e d # gather_candidates e d)) ds)"
    by (simp add: gather_loop_concat tag_candidates_def)
  show "init_candidates e (v\<lparr>selected_candidates := []\<rparr>) =
       Inr (v\<lparr>selected_candidates := [],
              candidates :=
                concat (map (\<lambda>d. map (\<lambda>c. c\<lparr>defx_index := Some (index d)\<rparr>)
                                   (get_root_candidate e d # gather_candidates e d))
                          (defxs v))\<rparr>)"
    by (simp add: init_candidates_def gather_loop_concat tag_candidates_def)
  show "init_candidates ex_env (ex_view\<lparr>candidates := []\<rparr>) = Inr ex_view"
    by (simp add: init_candidates_def ex_view_def ex_env_def ex_defxs_def ex_candidates_def
        ex_entry_def ex_tagged_def tag_candidates_def)
  show "map action__path (candidates ex_view) =
       [Some ''/a'', Some ''/a/1'', Some ''/a/2'', Some ''/b'', Some ''/b/1'']"
    by (simp add: ex_view_def ex_candidates_def ex_tagged_def)
  show "map defx_index (candidates ex_view) = [Some 0, Some 0, Some 0, Some 1, Some 1]"
    by (simp add: ex_view_def ex_candidates_def ex_tagged_def)
  show l: "search_file_loop (candidates ex_view) ''/b/1'' 1 1 = Inr (Some 5)"
    by (simp add: ex_view_def ex_candidates_def ex_tagged_def)
  show "search_file ex_view ''/b/1'' 1 =
       Inr (ex_view\<lparr>vim := (vim ex_view)\<lparr>cursor_line := 5, cursor_col := 1\<rparr>\<rparr>)"
    using l by (simp add: search_file_def)
qed

subsection \<open>The selection mask\<close>

lemma norm_index_length:
  "length cs' = length cs \<Longrightarrow> norm_index cs' i = norm_index cs i"
  by (simp add: norm_index_def)

lemma in_range_length:
  "length cs' = length cs \<Longrightarrow> in_range cs' i = in_range cs i"
  by (simp add: in_range_def norm_index_def)

lemma select_loop_marks:
  "\<forall>i \<in> set sel. in_range cs i \<Longrightarrow>
   \<exists>cs'. select_loop cs sel = Inr cs' \<and> length cs' = length cs
     \<and> (\<forall>k < length cs.
           cs' ! k = (if int k \<in> norm_index cs ` set sel
                      then (cs ! k)\<lparr>is_selected := Some True\<rparr> else cs ! k))"
proof (induction sel arbitrary: cs)
  case Nil
  then show ?case by simp
next
  case (Cons i js)
  define n where "n = nat (norm_index cs i)"
  define cs1 where "cs1 = cs[n := (cs ! n)\<lparr>is_selected := Some True\<rparr>]"
  have len: "length cs1 = length cs" by (simp add: cs1_def)
  from Cons.prems have ri: "in_range cs i" and rj: "\<forall>j \<in> set js. in_range cs j" by simp_all
  from ri have n: "n < length cs" "int n = norm_index cs i"
    by (simp_all add: n_def in_range_def nat_less_iff)
  from rj have "\<forall>j \<in> set js. in_range cs1 j" by (simp add: in_range_length [OF len])
  from Cons.IH [OF this] obtain cs' where
    r: "select_loop cs1 js = Inr cs'" and l: "length cs' = length cs1"
    and m: "\<forall>k < length cs1.
           cs' ! k = (if int k \<in> norm_index cs1 ` set js
                      then (cs1 ! k)\<lparr>is_selected := Some True\<rparr> else cs1 ! k)"
    by blast
  have nj: "norm_index cs1 ` set js = norm_index cs ` set js"
    by (rule image_cong) (simp_all add: norm_index_length [OF len])
  have "select_loop cs (i # js) = Inr cs'"
    using ri r by (simp add: cs1_def n_def)
  moreover have "length cs' = length cs" using l len by simp
  moreover have "\<forall>k < length cs.
           cs' ! k = (if int k \<in> norm_index cs ` set (i # js)
                      then (cs ! k)\<lparr>is_selected := Some True\<rparr> else cs ! k)"
  proof (intro allI impI)
    fix k assume k: "k < length cs"
    with m len nj have c: "cs' ! k = (if int k \<in> norm_index cs ` set js
                      then (cs1 ! k)\<lparr>is_selected := Some True\<rparr> else cs1 ! k)" by simp
    show "cs' ! k = (if int k \<in> norm_index cs ` set (i # js)
                      then (cs ! k)\<lparr>is_selected := Some True\<rparr> else cs ! k)"
    proof (cases "k = n")
      case True
      with k have "cs1 ! k = (cs ! k)\<lparr>is_selected := Some True\<rparr>" by (simp add: cs1_def)
      with c True n show ?thesis by simp
    next
      case False
      then have "cs1 ! k = cs ! k" by (simp add: cs1_def)
      moreover from False n have "int k \<noteq> norm_index cs i" by auto
      ultimately show ?thesis using c by simp
    qed
  qed
  ultimately show ?case by blast
qed

lemma select_loop_raises:
  "\<exists>i \<in> set sel. \<not> in_range cs i \<Longrightarrow>
   \<exists>cs'. select_loop cs sel = Inl (IndexError, cs') \<and> length cs' = length cs"
proof (induction sel arbitrary: cs)
  case Nil
  then show ?case by simp
next
  case (Cons i js)
  show ?case
  proof (cases "in_range cs i")
    case False
    then show ?thesis by simp
  next
    case True
    define cs1 where "cs1 = cs[nat (norm_index cs i) :=
                   (cs ! nat (norm_index cs i))\<lparr>is_selected := Some True\<rparr>]"
    have len: "length cs1 = length cs" by (simp add: cs1_def)
    from True Cons.prems have "\<exists>j \<in> set js. \<not> in_range cs j" by auto
    then have "\<exists>j \<in> set js. \<not> in_range cs1 j" by (simp add: in_range_length [OF len])
    from Cons.IH [OF this] obtain cs' where
      "select_loop cs1 js = Inl (IndexError, cs')" "length cs' = length cs1" by blast
    with True len show ?thesis by (simp add: cs1_def)
  qed
qed

text \<open>
  C1 (as the code has it).  \<open>init_candidates\<close> has no range check on the positions of
  the selection list.  When every position is in range of the freshly built sequence
  (Python indexing: \<open>-len \<le> i < len\<close>), the rebuild returns, the candidates at the
  selected positions are marked \<open>is_selected = True\<close> and every other candidate is as the
  sessions gave it.  When some position is out of range the rebuild raises
  \<open>IndexError\<close>.  \<open>redraw\<close> empties the selection list before it rebuilds, and with an
  empty list the rebuild always returns.
\<close>

theorem selection_mask_projection:
  "((\<forall>i \<in> set (selected_candidates v). in_range (gather_loop e [] (defxs v)) i) \<longrightarrow>
      (\<exists>cs'. init_candidates e v = Inr (v\<lparr>candidates := cs'\<rparr>)
         \<and> length cs' = length (gather_loop e [] (defxs v))
         \<and> (\<forall>k < length cs'.
               cs' ! k =
                 (if int k \<in> norm_index (gather_loop e [] (defxs v)) ` set (selected_candidates v)
                  then (gather_loop e [] (defxs v) ! k)\<lparr>is_selected := Some True\<rparr>
                  else gather_loop e [] (defxs v) ! k))))
   \<and> ((\<exists>i \<in> set (selected_candidates v). \<not> in_range (gather_loop e [] (defxs v)) i) \<longrightarrow>
      (\<exists>cs'. init_candidates e v = Inl (IndexError, v\<lparr>candidates := cs'\<rparr>)))
   \<and> (\<exists>v'. init_candidates e (v\<lparr>selected_candidates := []\<rparr>) = Inr v')"
proof (intro conjI impI)
  assume a: "\<forall>i \<in> set (selected_candidates v). in_range (gather_loop e [] (defxs v)) i"
  from select_loop_marks [OF a] obtain cs' where
    r: "select_loop (gather_loop e [] (defxs v)) (selected_candidates v) = Inr cs'"
    and l: "length cs' = length (gather_loop e [] (defxs v))"
    and m: "\<forall>k < length (gather_loop e [] (defxs v)).
           cs' ! k = (if int k \<in> norm_index (gather_loop e [] (defxs v)) ` set (selected_candidates v)
                      then (gather_loop e [] (defxs v) ! k)\<lparr>is_selected := Some True\<rparr>
                      else gather_loop e [] (defxs v) ! k)"
    by blast
  have i: "init_candidates e v = Inr (v\<lparr>candidates := cs'\<rparr>)"
    using r by (simp add: init_candidates_def)
  show "\<exists>cs'. init_candidates e v = Inr (v\<lparr>candidates := cs'\<rparr>)
         \<and> length cs' = length (gather_loop e [] (defxs v))
         \<and> (\<forall>k < length cs'.
               cs' ! k =
                 (if int k \<in> norm_index (gather_loop e [] (defxs v)) ` set (selected_candidates v)
                  then (gather_loop e [] (defxs v) ! k)\<lparr>is_selected := Some True\<rparr>
                  else gather_loop e [] (defxs v) ! k))"
    by (rule exI [of _ cs']) (simp add: i l m)
next
  assume "\<exists>i \<in> set (selected_candidates v). \<not> in_range (gather_loop e [] (defxs v)) i"
  from select_loop_raises [OF this] obtain cs' where
    "select_loop (gather_loop e [] (defxs v)) (selected_candidates v) = Inl (IndexError, cs')"
    by blast
  then have "init_candidates e v = Inl (IndexError, v\<lparr>candidates := cs'\<rparr>)"
    by (simp add: init_candidates_def)
  then show "\<exists>cs'. init_candidates e v = Inl (IndexError, v\<lparr>candidates := cs'\<rparr>)" ..
next
  show "\<exists>v'. init_candidates e (v\<lparr>selected_candidates := []\<rparr>) = Inr v'"
    by (simp add: init_candidates_def)
qed

theorem selection_mask_projection_witness:
  "init_candidates ex_env (ex_view\<lparr>selected_candidates := [1, -1]\<rparr>) =
     Inr (ex_view\<lparr>selected_candidates := [1, -1],
            candidates :=
              [ex_tagged ''/a'' 0,
               (ex_tagged ''/a/1'' 0)\<lparr>is_selected := Some True\<rparr>,
               ex_tagged ''/a/2'' 0,
               ex_tagged ''/b'' 1,
               (ex_tagged ''/b/1'' 1)\<lparr>is_selected := Some True\<rparr>]\<rparr>)
   \<and> (\<exists>cs'. init_candidates ex_env (ex_view\<lparr>selected_candidates := [-6]\<rparr>) =
          Inl (IndexError, ex_view\<lparr>selected_candidates := [-6], candidates := cs'\<rparr>))"
proof -
  have g: "gather_loop ex_env [] (defxs ex_view) = ex_candidates"
    by (simp add: ex_view_def ex_env_def ex_defxs_def ex_candidates_def
        ex_entry_def ex_tagged_def tag_candidates_def)
  have h: "\<forall>i \<in> set (selected_candidates (ex_view\<lparr>selected_candidates := [1, -1]\<rparr>)).
      in_range (gather_loop ex_env [] (defxs (ex_view\<lparr>selected_candidates := [1, -1]\<rparr>))) i"
    by (simp add: g in_range_def norm_index_def ex_candidates_def)
  from selection_mask_projection [of "ex_view\<lparr>selected_candidates := [1, -1]\<rparr>" ex_env] h
  obtain cs' where "init_candidates ex_env (ex_view\<lparr>selected_candidates := [1, -1]\<rparr>)
      = Inr (ex_view\<lparr>selected_candidates := [1, -1], candidates := cs'\<rparr>)"
    by auto
  moreover have "init_candidates ex_env (ex_view\<lparr>selected_candidates := [1, -1]\<rparr>) =
     Inr (ex_view\<lparr>selected_candidates := [1, -1],
            candidates :=
              [ex_tagged ''/a'' 0,
               (ex_tagged ''/a/1'' 0)\<lparr>is_selected := Some True\<rparr>,
               ex_tagged ''/a/2'' 0,
               ex_tagged ''/b'' 1,
               (ex_tagged ''/b/1'' 1)\<lparr>is_selected := Some True\<rparr>]\<rparr>)"
    by (simp add: init_candidates_def g ex_candidates_def in_range_def norm_index_def)
  moreover have "\<exists>i \<in> set (selected_candidates (ex_view\<lparr>selected_candidates := [-6]\<rparr>)).
      \<not> in_range (gather_loop ex_env [] (defxs (ex_view\<lparr>selected_candidates := [-6]\<rparr>))) i"
    by (simp add: g in_range_def norm_index_def ex_candidates_def)
  with selection_mask_projection [of "ex_view\<lparr>selected_candidates := [-6]\<rparr>" ex_env]
  have "\<exists>cs'. init_candidates ex_env (ex_view\<lparr>selected_candidates := [-6]\<rparr>) =
          Inl (IndexError, ex_view\<lparr>selected_candidates := [-6], candidates := cs'\<rparr>)"
    by simp
  ultimately show ?thesis by simp
qed

text \<open>
  As the specification words it, the property fails: with five candidates and the
  stale position 7 in the selection list, the rebuild raises \<open>IndexError\<close>.
\<close>

theorem stale_selection_raises_counterexample:
  "init_candidates ex_env (ex_view\<lparr>selected_candidates := [7]\<rparr>) =
     Inl (IndexError, ex_view\<lparr>selected_candidates := [7]\<rparr>)"
  by (simp add: init_candidates_def ex_view_def ex_env_def ex_defxs_def ex_candidates_def
        ex_entry_def ex_tagged_def tag_candidates_def in_range_def norm_index_def)

subsection \<open>cd\<close>

lemma cd_no_candidate_raises:
  "k < length (defxs v) \<Longrightarrow> int (length (candidates v)) < cur \<Longrightarrow>
   cd e v k path cur = Inl (KeyError ''action__path'', v)"
  by (simp add: cd_def get_cursor_candidate_def empty_candidate_def)

text \<open>
  C2 (the code at the failing input).  With five candidates and the cursor on line 6,
  \<open>get_cursor_candidate\<close> returns the empty dict and line 160 of \<open>cd\<close> subscripts it:
  the call raises \<open>KeyError\<close>, before the history is written and before the root
  changes.  \<open>redraw\<close> tests \<open>if prev:\<close> before it subscripts; \<open>cd\<close> does not.
\<close>

theorem cd_without_cursor_candidate_raises:
  "get_cursor_candidate ex_view 6 = Inr empty_candidate
   \<and> cd ex_env ex_view 0 ''/b'' 6 = Inl (KeyError ''action__path'', ex_view)"
  by (simp add: cd_def get_cursor_candidate_def empty_candidate_def ex_view_def
      ex_candidates_def ex_defxs_def)

text \<open>
  C3 (as the code has it).  \<open>cd\<close> writes \<open>history[defx._cwd]\<close> on line 160, before it
  asks the Tree Session to change its root on line 162.  When the Tree Session rejects
  the change, the exception leaves \<open>cd\<close> with that entry written and nothing else
  changed: the selection list, the aggregated sequence, the editor (no redraw, no
  cursor move), every other session, and the root and the index of the session itself.
\<close>

theorem cd_rejected_root_change:
  assumes "k < length (defxs v)"
    and "get_cursor_candidate v cur = Inr c"
    and "action__path c = Some p"
    and "defx_cd e ((defxs v ! k)\<lparr>cursor_history :=
            (cursor_history (defxs v ! k))(cwd (defxs v ! k) \<mapsto> p)\<rparr>) path = Inl err"
  shows "\<exists>v'. cd e v k path cur = Inl (err, v')
    \<and> selected_candidates v' = selected_candidates v
    \<and> candidates v' = candidates v
    \<and> vim v' = vim v
    \<and> length (defxs v') = length (defxs v)
    \<and> (\<forall>j. j \<noteq> k \<longrightarrow> defxs v' ! j = defxs v ! j)
    \<and> cwd (defxs v' ! k) = cwd (defxs v ! k)
    \<and> index (defxs v' ! k) = index (defxs v ! k)
    \<and> cursor_history (defxs v' ! k) =
        (cursor_history (defxs v ! k))(cwd (defxs v ! k) \<mapsto> p)"
proof -
  define d1 where "d1 = (defxs v ! k)\<lparr>cursor_history :=
            (cursor_history (defxs v ! k))(cwd (defxs v ! k) \<mapsto> p)\<rparr>"
  have "cd e v k path cur = Inl (err, v\<lparr>defxs := (defxs v)[k := d1]\<rparr>)"
    using assms by (simp add: cd_def d1_def Let_def)
  moreover have "(defxs v)[k := d1] ! k = d1" using assms(1) by simp
  ultimately show ?thesis by (simp add: d1_def)
qed

theorem cd_rejected_root_change_witness:
  "cd ex_env ex_view 0 ''/nowhere'' 3 =
     Inl (CollaboratorError ''no such directory'',
          ex_view\<lparr>defxs :=
            [\<lparr>index = 0, cwd = ''/a'', cursor_history = [''/a'' \<mapsto> ''/a/2'']\<rparr>,
             \<lparr>index = 1, cwd = ''/b'', cursor_history = Map.empty\<rparr>]\<rparr>)"
proof -
  have 1: "0 < length (defxs ex_view)" by (simp add: ex_view_def ex_defxs_def)
  have 2: "get_cursor_candidate ex_view 3 = Inr (ex_tagged ''/a/2'' 0)"
    by (simp add: get_cursor_candidate_def py_index_def in_range_def norm_index_def
        ex_view_def ex_candidates_def)
  have 3: "action__path (ex_tagged ''/a/2'' 0) = Some ''/a/2''" by (simp add: ex_tagged_def)
  have 4: "defx_cd ex_env ((defxs ex_view ! 0)\<lparr>cursor_history :=
            (cursor_history (defxs ex_view ! 0))(cwd (defxs ex_view ! 0) \<mapsto> ''/a/2'')\<rparr>)
            ''/nowhere'' = Inl (CollaboratorError ''no such directory'')"
    by (simp add: ex_env_def)
  from cd_rejected_root_change [OF 1 2 3 4] obtain v' where
    "cd ex_env ex_view 0 ''/nowhere'' 3 = Inl (CollaboratorError ''no such directory'', v')"
    by blast
  moreover have "cd ex_env ex_view 0 ''/nowhere'' 3 =
     Inl (CollaboratorError ''no such directory'',
          ex_view\<lparr>defxs :=
            [\<lparr>index = 0, cwd = ''/a'', cursor_history = [''/a'' \<mapsto> ''/a/2'']\<rparr>,
             \<lparr>index = 1, cwd = ''/b'', cursor_history = Map.empty\<rparr>]\<rparr>)"
    using 2 by (simp add: cd_def ex_env_def ex_view_def ex_defxs_def ex_tagged_def)
  ultimately show ?thesis by simp
qed

text \<open>
  As the specification words it, the property fails: the root change to \<open>/nowhere\<close>
  is rejected, and the history of session 0, empty before the call, holds
  \<open>/a \<mapsto> /a/1\<close> after it.
\<close>

theorem cd_rejected_history_written_counterexample:
  "cursor_history (defxs ex_view ! 0) ''/a'' = None
   \<and> cd ex_env ex_view 0 ''/nowhere'' 2 =
       Inl (CollaboratorError ''no such directory'',
            ex_view\<lparr>defxs :=
              [\<lparr>index = 0, cwd = ''/a'', cursor_history = [''/a'' \<mapsto> ''/a/1'']\<rparr>,
               \<lparr>index = 1, cwd = ''/b'', cursor_history = Map.empty\<rparr>]\<rparr>)"
  by (simp add: cd_def get_cursor_candidate_def py_index_def in_range_def norm_index_def
      ex_env_def ex_view_def ex_defxs_def ex_candidates_def ex_tagged_def)

subsection \<open>The selection list after redraw and cd\<close>

lemma get_cursor_candidate_returns:
  "1 \<le> cur \<Longrightarrow> \<exists>c. get_cursor_candidate v cur = Inr c"
  by (simp add: get_cursor_candidate_def py_index_def in_range_def norm_index_def)

lemma search_file_selection:
  "(case search_file v path i of
      Inl (err, v') \<Rightarrow> selected_candidates v' = selected_candidates v
    | Inr v' \<Rightarrow> selected_candidates v' = selected_candidates v)"
  by (simp add: search_file_def split: sum.splits option.splits)

lemma init_candidates_no_selection:
  "init_candidates e (v\<lparr>selected_candidates := []\<rparr>) =
     Inr (v\<lparr>selected_candidates := [], candidates := gather_loop e [] (defxs v)\<rparr>)"
  by (simp add: init_candidates_def)

lemma redraw_force_selection:
  assumes "filetype (vim v) = ''defx''"
    and "get_cursor_candidate v (cursor_line (vim v)) = Inr prev"
  shows "(case redraw e True v of
      Inl (err, v') \<Rightarrow> selected_candidates v' = []
    | Inr v' \<Rightarrow> selected_candidates v' = [])"
  using assms
  by (auto simp: redraw_def init_candidates_no_selection Let_def search_file_def
      split: sum.splits option.splits)

lemma cd_returns_selection:
  "cd e v k path cur = Inr w \<Longrightarrow> selected_candidates w = []"
  by (auto simp: cd_def Let_def split: if_splits sum.splits option.splits)

text \<open>
  C5 (as the code has it).  \<open>redraw\<close> starts with a guard: when the current buffer is
  not the defx buffer it returns at once and changes nothing, the selection list
  included.  On the defx buffer, with the editor reporting a cursor line of at least 1,
  \<open>redraw(True)\<close> leaves the selection list empty, whether it returns or a later
  subscript raises.  Every call of \<open>cd\<close> that returns leaves the selection list empty.
\<close>

theorem selection_cleared:
  "(filetype (vim v) = ''defx'' \<and> 1 \<le> cursor_line (vim v) \<longrightarrow>
      (case redraw e True v of
         Inl (err, v') \<Rightarrow> selected_candidates v' = []
       | Inr v' \<Rightarrow> selected_candidates v' = []))
   \<and> (filetype (vim v) \<noteq> ''defx'' \<longrightarrow> redraw e is_force v = Inr v)
   \<and> (cd e v k path cur = Inr w \<longrightarrow> selected_candidates w = [])"
proof (intro conjI impI)
  assume a: "filetype (vim v) = ''defx'' \<and> 1 \<le> cursor_line (vim v)"
  then obtain prev where "get_cursor_candidate v (cursor_line (vim v)) = Inr prev"
    using get_cursor_candidate_returns by blast
  with a show "(case redraw e True v of
         Inl (err, v') \<Rightarrow> selected_candidates v' = []
       | Inr v' \<Rightarrow> selected_candidates v' = [])"
    by (simp add: redraw_force_selection)
next
  assume "filetype (vim v) \<noteq> ''defx''"
  then show "redraw e is_force v = Inr v" by (simp add: redraw_def)
next
  assume "cd e v k path cur = Inr w"
  then show "selected_candidates w = []" by (rule cd_returns_selection)
qed

theorem selection_cleared_witness:
  "redraw ex_env True (ex_view\<lparr>selected_candidates := [1]\<rparr>) =
     Inr (ex_view\<lparr>vim := ex_host\<lparr>buffer_lines := [''/a'', ''/a/1'', ''/a/2'', ''/b'', ''/b/1'']\<rparr>\<rparr>)
   \<and> selected_candidates ex_view = []
   \<and> redraw ex_env False (ex_view\<lparr>vim := ex_host\<lparr>filetype := ''text''\<rparr>\<rparr>) =
       Inr (ex_view\<lparr>vim := ex_host\<lparr>filetype := ''text''\<rparr>\<rparr>)
   \<and> cd ex_env (ex_view\<lparr>selected_candidates := [1]\<rparr>) 0 ''/b'' 2 =
       Inr \<lparr>vim = ex_host\<lparr>buffer_lines := [''/b'', ''/b/1'', ''/b'', ''/b/1'']\<rparr>,
            candidates =
              [ex_tagged ''/b'' 0, ex_tagged ''/b/1'' 0, ex_tagged ''/b'' 1, ex_tagged ''/b/1'' 1],
            selected_candidates = [],
            view_context = ex_ctx,
            defxs =
              [\<lparr>index = 0, cwd = ''/b'', cursor_history = [''/a'' \<mapsto> ''/a/1'']\<rparr>,
               \<lparr>index = 1, cwd = ''/b'', cursor_history = Map.empty\<rparr>],
            columns = ex_columns\<rparr>"
proof -
  have r: "redraw ex_env True (ex_view\<lparr>selected_candidates := [1]\<rparr>) =
     Inr (ex_view\<lparr>vim := ex_host\<lparr>buffer_lines := [''/a'', ''/a/1'', ''/a/2'', ''/b'', ''/b/1'']\<rparr>\<rparr>)"
    by (simp add: redraw_def init_candidates_def get_cursor_candidate_def py_index_def
        in_range_def norm_index_def search_file_def get_columns_text_def tag_candidates_def
        empty_candidate_def ex_view_def ex_host_def ex_env_def ex_defxs_def ex_candidates_def
        ex_columns_def ex_entry_def ex_tagged_def)
  have c: "cd ex_env (ex_view\<lparr>selected_candidates := [1]\<rparr>) 0 ''/b'' 2 =
       Inr \<lparr>vim = ex_host\<lparr>buffer_lines := [''/b'', ''/b/1'', ''/b'', ''/b/1'']\<rparr>,
            candidates =
              [ex_tagged ''/b'' 0, ex_tagged ''/b/1'' 0, ex_tagged ''/b'' 1, ex_tagged ''/b/1'' 1],
            selected_candidates = [],
            view_context = ex_ctx,
            defxs =
              [\<lparr>index = 0, cwd = ''/b'', cursor_history = [''/a'' \<mapsto> ''/a/1'']\<rparr>,
               \<lparr>index = 1, cwd = ''/b'', cursor_history = Map.empty\<rparr>],
            columns = ex_columns\<rparr>"
    by (simp add: cd_def redraw_def init_candidates_def get_cursor_candidate_def py_index_def
        in_range_def norm_index_def search_file_def get_columns_text_def tag_candidates_def
        empty_candidate_def ex_view_def ex_host_def ex_env_def ex_defxs_def ex_candidates_def
        ex_columns_def ex_entry_def ex_tagged_def)
  have a: "filetype (vim (ex_view\<lparr>selected_candidates := [1]\<rparr>)) = ''defx''
      \<and> 1 \<le> cursor_line (vim (ex_view\<lparr>selected_candidates := [1]\<rparr>))"
    by (simp add: ex_view_def ex_host_def)
  have b: "filetype (vim (ex_view\<lparr>vim := ex_host\<lparr>filetype := ''text''\<rparr>\<rparr>)) \<noteq> ''defx''"
    by simp
  from selection_cleared [of "ex_view\<lparr>selected_candidates := [1]\<rparr>" ex_env True 0 "''/b''" 2] a r c
  have 1: "selected_candidates ex_view = []" by simp
  from selection_cleared [of "ex_view\<lparr>vim := ex_host\<lparr>filetype := ''text''\<rparr>\<rparr>" ex_env False] b
  have 2: "redraw ex_env False (ex_view\<lparr>vim := ex_host\<lparr>filetype := ''text''\<rparr>\<rparr>) =
       Inr (ex_view\<lparr>vim := ex_host\<lparr>filetype := ''text''\<rparr>\<rparr>)" by simp
  from r c 1 2 show ?thesis by simp
qed

text \<open>
  As the specification words it, the property fails: with the cursor in a buffer that
  is not the defx buffer, \<open>redraw(True)\<close> returns at its guard and the selection list
  \<open>[1]\<close> is kept.
\<close>

theorem redraw_guard_keeps_selection_counterexample:
  "redraw ex_env True
     (ex_view\<lparr>vim := ex_host\<lparr>filetype := ''text''\<rparr>, selected_candidates := [1]\<rparr>) =
     Inr (ex_view\<lparr>vim := ex_host\<lparr>filetype := ''text''\<rparr>, selected_candidates := [1]\<rparr>)
   \<and> selected_candidates
        (ex_view\<lparr>vim := ex_host\<lparr>filetype := ''text''\<rparr>, selected_candidates := [1]\<rparr>) = [1]"
  by (simp add: redraw_def)

subsection \<open>do_action\<close>

lemma get_selected_candidates_cong:
  "candidates w = candidates v \<Longrightarrow> selected_candidates w = selected_candidates v \<Longrightarrow>
   get_selected_candidates w cur i = get_selected_candidates v cur i"
  by (simp add: get_selected_candidates_def get_cursor_candidate_def)

lemma do_action_loop_refines:
  assumes frame: "\<forall>w k n cx w'.
      candidates w = candidates v \<and> selected_candidates w = selected_candidates v
        \<and> defxs w = defxs v \<and> action_do_action e w k n cx = Inr w' \<longrightarrow>
      candidates w' = candidates v \<and> selected_candidates w' = selected_candidates v
        \<and> defxs w' = defxs v"
    and ts: "\<forall>k < length (defxs v).
      get_selected_candidates v cur (index (defxs v ! k)) = Inr (ts k)"
  shows "candidates w = candidates v \<Longrightarrow> selected_candidates w = selected_candidates v \<Longrightarrow>
     defxs w = defxs v \<Longrightarrow> \<forall>k \<in> set ks. k < length (defxs v) \<Longrightarrow>
     do_action_loop e an aa cur ks w calls =
       dispatch_in_order e an aa cur ts (filter (\<lambda>k. ts k \<noteq> []) ks) w calls"
proof (induction ks arbitrary: w calls)
  case Nil
  then show ?case by simp
next
  case (Cons k ks)
  from Cons.prems have k: "k < length (defxs w)" "k < length (defxs v)"
    and ks: "\<forall>k \<in> set ks. k < length (defxs v)"
    by simp_all
  have g: "get_selected_candidates w cur (index (defxs w ! k)) = Inr (ts k)"
    using get_selected_candidates_cong [OF Cons.prems(1,2), of cur "index (defxs v ! k)"]
      Cons.prems(3) ts k(2) by simp
  show ?case
  proof (cases "ts k = []")
    case True
    with k g have "do_action_loop e an aa cur (k # ks) w calls =
        do_action_loop e an aa cur ks w calls" by simp
    with Cons.IH [OF Cons.prems(1-3) ks, of calls] True show ?thesis by simp
  next
    case False
    define cx where "cx = (view_context w)\<lparr>targets := ts k, args := aa, cursor := cur\<rparr>"
    show ?thesis
    proof (cases "action_do_action e w k an cx")
      case (Inl ev)
      with k g False show ?thesis by (simp add: cx_def Let_def)
    next
      case (Inr w')
      with frame Cons.prems(1-3) have
        f: "candidates w' = candidates v" "selected_candidates w' = selected_candidates v"
          "defxs w' = defxs v"
        by blast+
      have "do_action_loop e an aa cur (k # ks) w calls =
          do_action_loop e an aa cur ks w' (calls @ [(k, an, cx)])"
        using k g False Inr by (simp add: cx_def Let_def)
      with Cons.IH [OF f ks, of "calls @ [(k, an, cx)]"] False Inr
      show ?thesis by (simp add: cx_def)
    qed
  qed
qed

lemma dispatch_in_order_returns:
  assumes "\<forall>w k n cx. \<exists>w'. action_do_action e w k n cx = Inr w'"
  shows "(\<exists>w'. fst (dispatch_in_order e an aa cur ts ks w calls) = Inr w')
    \<and> map call_summary (snd (dispatch_in_order e an aa cur ts ks w calls)) =
        map call_summary calls @ map (\<lambda>k. (k, an, ts k, aa, cur)) ks"
proof (induction ks arbitrary: w calls)
  case Nil
  show ?case by simp
next
  case (Cons k ks)
  from assms obtain w' where
    "action_do_action e w k an ((view_context w)\<lparr>targets := ts k, args := aa, cursor := cur\<rparr>)
       = Inr w'" by blast
  with Cons.IH [of w' "calls @ [(k, an, (view_context w)\<lparr>targets := ts k, args := aa, cursor := cur\<rparr>)]"]
  show ?case by (simp add: call_summary_def)
qed

text \<open>
  C7 (as the code has it).  When the aggregated sequence is empty \<open>do_action\<close> returns
  the View unchanged and makes no call.  Otherwise, when \<open>get_selected_candidates\<close>
  returns the targets \<open>ts k\<close> for the cursor and every session, and a dispatcher call
  that returns leaves the aggregated sequence, the selection list and the sessions of
  the View as they are, \<open>do_action\<close> is the dispatch of the specification on the
  sessions whose targets are not empty: one call for each of them, in the order of the
  sessions, each on the View the call before left, none for a session without targets.
  There is no \<open>try\<close> around the call: a dispatcher call that raises ends \<open>do_action\<close>
  with that exception and the later sessions are not called.  When every dispatcher
  call returns, \<open>do_action\<close> returns and the calls are exactly the sessions with
  targets, once each.
\<close>

theorem dispatch_once_per_session_with_targets:
  "(candidates v = [] \<longrightarrow> do_action e v an aa nc = (Inr v, []))
   \<and> (candidates v \<noteq> [] \<and> nc ''cursor'' = Some cur
        \<and> (\<forall>k < length (defxs v).
              get_selected_candidates v cur (index (defxs v ! k)) = Inr (ts k))
        \<and> (\<forall>w k n cx w'.
              candidates w = candidates v \<and> selected_candidates w = selected_candidates v
                \<and> defxs w = defxs v \<and> action_do_action e w k n cx = Inr w' \<longrightarrow>
              candidates w' = candidates v \<and> selected_candidates w' = selected_candidates v
                \<and> defxs w' = defxs v)
       \<longrightarrow>
         do_action e v an aa nc =
           dispatch_in_order e an aa cur ts
             (filter (\<lambda>k. ts k \<noteq> []) [0..<length (defxs v)]) v []
         \<and> ((\<forall>w k n cx. \<exists>w'. action_do_action e w k n cx = Inr w') \<longrightarrow>
               (\<exists>w'. fst (do_action e v an aa nc) = Inr w')
               \<and> map call_summary (snd (do_action e v an aa nc)) =
                   map (\<lambda>k. (k, an, ts k, aa, cur))
                     (filter (\<lambda>k. ts k \<noteq> []) [0..<length (defxs v)])))"
proof (intro conjI impI)
  assume "candidates v = []"
  then show "do_action e v an aa nc = (Inr v, [])" by (simp add: do_action_def)
next
  assume a: "candidates v \<noteq> [] \<and> nc ''cursor'' = Some cur
        \<and> (\<forall>k < length (defxs v).
              get_selected_candidates v cur (index (defxs v ! k)) = Inr (ts k))
        \<and> (\<forall>w k n cx w'.
              candidates w = candidates v \<and> selected_candidates w = selected_candidates v
                \<and> defxs w = defxs v \<and> action_do_action e w k n cx = Inr w' \<longrightarrow>
              candidates w' = candidates v \<and> selected_candidates w' = selected_candidates v
                \<and> defxs w' = defxs v)"
  note ne = a [THEN conjunct1]
    and nc = a [THEN conjunct2, THEN conjunct1]
    and ts = a [THEN conjunct2, THEN conjunct2, THEN conjunct1]
    and frame = a [THEN conjunct2, THEN conjunct2, THEN conjunct2]
  have "\<forall>k \<in> set [0..<length (defxs v)]. k < length (defxs v)" by simp
  from do_action_loop_refines [OF frame ts refl refl refl this, of an aa "[]"] ne nc
  show eq: "do_action e v an aa nc =
           dispatch_in_order e an aa cur ts
             (filter (\<lambda>k. ts k \<noteq> []) [0..<length (defxs v)]) v []"
    by (simp add: do_action_def)
  assume r: "\<forall>w k n cx. \<exists>w'. action_do_action e w k n cx = Inr w'"
  from dispatch_in_order_returns [OF r, of an aa cur ts
      "filter (\<lambda>k. ts k \<noteq> []) [0..<length (defxs v)]" v "[]"] eq
  show "\<exists>w'. fst (do_action e v an aa nc) = Inr w'"
    and "map call_summary (snd (do_action e v an aa nc)) =
                   map (\<lambda>k. (k, an, ts k, aa, cur))
                     (filter (\<lambda>k. ts k \<noteq> []) [0..<length (defxs v)])"
    by simp_all
qed

theorem dispatch_once_per_session_with_targets_witness:
  "do_action ex_env ex_view ''open'' [] [''cursor'' \<mapsto> 5] =
     (Inr (ex_view\<lparr>vim := ex_host\<lparr>cursor_col := 2\<rparr>\<rparr>),
      [(1, ''open'', ex_ctx\<lparr>targets := [ex_tagged ''/b/1'' 1], args := [], cursor := 5\<rparr>)])
   \<and> map call_summary
         (snd (do_action ex_env (ex_view\<lparr>selected_candidates := [1, 4]\<rparr>) ''open'' []
                 [''cursor'' \<mapsto> 1])) =
       [(0, ''open'', [ex_tagged ''/a/1'' 0], [], 1), (1, ''open'', [ex_tagged ''/b/1'' 1], [], 1)]
   \<and> do_action ex_env (ex_view\<lparr>candidates := []\<rparr>) ''open'' [] [''cursor'' \<mapsto> 5] =
       (Inr (ex_view\<lparr>candidates := []\<rparr>), [])
   \<and> fst (do_action ex_env_failing (ex_view\<lparr>selected_candidates := [1, 4]\<rparr>) ''open'' []
            [''cursor'' \<mapsto> 1]) =
       Inl (CollaboratorError ''action failed'', ex_view\<lparr>selected_candidates := [1, 4]\<rparr>)"
proof -
  have frame: "\<forall>w k n cx w'.
      candidates w = candidates v \<and> selected_candidates w = selected_candidates v
        \<and> defxs w = defxs v \<and> action_do_action ex_env w k n cx = Inr w' \<longrightarrow>
      candidates w' = candidates v \<and> selected_candidates w' = selected_candidates v
        \<and> defxs w' = defxs v" for v
    by (auto simp: ex_env_def)
  have ret: "\<forall>w k n cx. \<exists>w'. action_do_action ex_env w k n cx = Inr w'"
    by (simp add: ex_env_def)
  have n: "length (defxs ex_view) = Suc (Suc 0)" by (simp add: ex_view_def ex_defxs_def)
  have ne: "candidates ex_view \<noteq> []" by (simp add: ex_view_def ex_candidates_def)
  have ne1: "candidates (ex_view\<lparr>selected_candidates := [1, 4]\<rparr>) \<noteq> []"
    by (simp add: ex_view_def ex_candidates_def)
  have m5: "[''cursor'' \<mapsto> (5::int)] ''cursor'' = Some 5" by simp
  have m1: "[''cursor'' \<mapsto> (1::int)] ''cursor'' = Some 1" by simp
  have t5: "\<forall>k < length (defxs ex_view).
      get_selected_candidates ex_view 5 (index (defxs ex_view ! k)) =
        Inr ((\<lambda>k. if k = 0 then [] else [ex_tagged ''/b/1'' 1]) k)"
    by (simp add: All_less_Suc get_selected_candidates_def get_cursor_candidate_def
        py_index_def in_range_def norm_index_def ex_view_def ex_defxs_def ex_candidates_def
        ex_tagged_def)
  have h5: "candidates ex_view \<noteq> [] \<and> [''cursor'' \<mapsto> (5::int)] ''cursor'' = Some 5
        \<and> (\<forall>k < length (defxs ex_view).
              get_selected_candidates ex_view 5 (index (defxs ex_view ! k)) =
                Inr ((\<lambda>k. if k = 0 then [] else [ex_tagged ''/b/1'' 1]) k))
        \<and> (\<forall>w k n cx w'.
              candidates w = candidates ex_view
                \<and> selected_candidates w = selected_candidates ex_view
                \<and> defxs w = defxs ex_view \<and> action_do_action ex_env w k n cx = Inr w' \<longrightarrow>
              candidates w' = candidates ex_view
                \<and> selected_candidates w' = selected_candidates ex_view
                \<and> defxs w' = defxs ex_view)"
    by (rule conjI [OF ne conjI [OF m5 conjI [OF t5 frame]]])
  note eq5 = dispatch_once_per_session_with_targets
    [of ex_view ex_env "''open''" "[]" "[''cursor'' \<mapsto> 5]" 5
        "\<lambda>k. if k = 0 then [] else [ex_tagged ''/b/1'' 1]",
     THEN conjunct2, THEN mp, OF h5, THEN conjunct1]
  have 1: "do_action ex_env ex_view ''open'' [] [''cursor'' \<mapsto> 5] =
     (Inr (ex_view\<lparr>vim := ex_host\<lparr>cursor_col := 2\<rparr>\<rparr>),
      [(1, ''open'', ex_ctx\<lparr>targets := [ex_tagged ''/b/1'' 1], args := [], cursor := 5\<rparr>)])"
    by (subst eq5) (simp add: ex_env_def ex_view_def ex_defxs_def)
  have t1: "\<forall>k < length (defxs (ex_view\<lparr>selected_candidates := [1, 4]\<rparr>)).
      get_selected_candidates (ex_view\<lparr>selected_candidates := [1, 4]\<rparr>) 1
          (index (defxs (ex_view\<lparr>selected_candidates := [1, 4]\<rparr>) ! k)) =
        Inr ((\<lambda>k. if k = 0 then [ex_tagged ''/a/1'' 0] else [ex_tagged ''/b/1'' 1]) k)"
    by (simp add: All_less_Suc get_selected_candidates_def
        py_index_def in_range_def norm_index_def ex_view_def ex_defxs_def ex_candidates_def
        ex_tagged_def)
  have h1: "candidates (ex_view\<lparr>selected_candidates := [1, 4]\<rparr>) \<noteq> []
        \<and> [''cursor'' \<mapsto> (1::int)] ''cursor'' = Some 1
        \<and> (\<forall>k < length (defxs (ex_view\<lparr>selected_candidates := [1, 4]\<rparr>)).
              get_selected_candidates (ex_view\<lparr>selected_candidates := [1, 4]\<rparr>) 1
                  (index (defxs (ex_view\<lparr>selected_candidates := [1, 4]\<rparr>) ! k)) =
                Inr ((\<lambda>k. if k = 0 then [ex_tagged ''/a/1'' 0] else [ex_tagged ''/b/1'' 1]) k))
        \<and> (\<forall>w k n cx w'.
              candidates w = candidates (ex_view\<lparr>selected_candidates := [1, 4]\<rparr>)
                \<and> selected_candidates w
                    = selected_candidates (ex_view\<lparr>selected_candidates := [1, 4]\<rparr>)
                \<and> defxs w = defxs (ex_view\<lparr>selected_candidates := [1, 4]\<rparr>)
                \<and> action_do_action ex_env w k n cx = Inr w' \<longrightarrow>
              candidates w' = candidates (ex_view\<lparr>selected_candidates := [1, 4]\<rparr>)
                \<and> selected_candidates w'
                    = selected_candidates (ex_view\<lparr>selected_candidates := [1, 4]\<rparr>)
                \<and> defxs w' = defxs (ex_view\<lparr>selected_candidates := [1, 4]\<rparr>))"
    by (rule conjI [OF ne1 conjI [OF m1 conjI [OF t1 frame]]])
  note all1 = dispatch_once_per_session_with_targets
    [of "ex_view\<lparr>selected_candidates := [1, 4]\<rparr>" ex_env "''open''" "[]"
        "[''cursor'' \<mapsto> 1]" 1
        "\<lambda>k. if k = 0 then [ex_tagged ''/a/1'' 0] else [ex_tagged ''/b/1'' 1]",
     THEN conjunct2, THEN mp, OF h1, THEN conjunct2, THEN mp, OF ret, THEN conjunct2]
  have 2: "map call_summary
         (snd (do_action ex_env (ex_view\<lparr>selected_candidates := [1, 4]\<rparr>) ''open'' []
                 [''cursor'' \<mapsto> 1])) =
       [(0, ''open'', [ex_tagged ''/a/1'' 0], [], 1), (1, ''open'', [ex_tagged ''/b/1'' 1], [], 1)]"
    using n by (simp add: all1)
  have 3: "do_action ex_env (ex_view\<lparr>candidates := []\<rparr>) ''open'' [] [''cursor'' \<mapsto> 5] =
       (Inr (ex_view\<lparr>candidates := []\<rparr>), [])"
    using dispatch_once_per_session_with_targets
      [of "ex_view\<lparr>candidates := []\<rparr>" ex_env "''open''" "[]" "[''cursor'' \<mapsto> 5]",
       THEN conjunct1]
    by simp
  have framef: "\<forall>w k n cx w'.
      candidates w = candidates (ex_view\<lparr>selected_candidates := [1, 4]\<rparr>)
        \<and> selected_candidates w
            = selected_candidates (ex_view\<lparr>selected_candidates := [1, 4]\<rparr>)
        \<and> defxs w = defxs (ex_view\<lparr>selected_candidates := [1, 4]\<rparr>)
        \<and> action_do_action ex_env_failing w k n cx = Inr w' \<longrightarrow>
      candidates w' = candidates (ex_view\<lparr>selected_candidates := [1, 4]\<rparr>)
        \<and> selected_candidates w'
            = selected_candidates (ex_view\<lparr>selected_candidates := [1, 4]\<rparr>)
        \<and> defxs w' = defxs (ex_view\<lparr>selected_candidates := [1, 4]\<rparr>)"
    by (simp add: ex_env_failing_def)
  note eqf = dispatch_once_per_session_with_targets
    [of "ex_view\<lparr>selected_candidates := [1, 4]\<rparr>" ex_env_failing "''open''" "[]"
        "[''cursor'' \<mapsto> 1]" 1
        "\<lambda>k. if k = 0 then [ex_tagged ''/a/1'' 0] else [ex_tagged ''/b/1'' 1]",
     THEN conjunct2, THEN mp, OF conjI [OF ne1 conjI [OF m1 conjI [OF t1 framef]]],
     THEN conjunct1]
  have 4: "fst (do_action ex_env_failing (ex_view\<lparr>selected_candidates := [1, 4]\<rparr>) ''open'' []
            [''cursor'' \<mapsto> 1]) =
       Inl (CollaboratorError ''action failed'', ex_view\<lparr>selected_candidates := [1, 4]\<rparr>)"
    by (subst eqf) (simp add: ex_env_failing_def ex_view_def ex_defxs_def)
  from 1 2 3 4 show ?thesis by simp
qed

text \<open>
  As the specification words it, the property fails: with the selection \<open>[1, 4]\<close> both
  sessions have a target, the dispatcher's call for session 0 raises, and \<open>do_action\<close>
  ends with that exception after this one call; session 1, whose targets are
  \<open>[/b/1]\<close>, is not called.
\<close>

theorem dispatcher_failure_stops_dispatch_counterexample:
  "get_selected_candidates (ex_view\<lparr>selected_candidates := [1, 4]\<rparr>) 1 1 =
     Inr [ex_tagged ''/b/1'' 1]
   \<and> do_action ex_env_failing (ex_view\<lparr>selected_candidates := [1, 4]\<rparr>) ''open'' []
       [''cursor'' \<mapsto> 1] =
       (Inl (CollaboratorError ''action failed'', ex_view\<lparr>selected_candidates := [1, 4]\<rparr>),
        [(0, ''open'', ex_ctx\<lparr>targets := [ex_tagged ''/a/1'' 0], args := [], cursor := 1\<rparr>)])"
  by (simp add: do_action_def get_selected_candidates_def py_index_def in_range_def
      norm_index_def ex_env_failing_def ex_env_def ex_view_def ex_defxs_def ex_candidates_def
      ex_tagged_def)

text \<open>
  \<open>get_selected_candidates\<close> subscripts the result of \<open>get_cursor_candidate\<close> without
  the test \<open>redraw\<close> makes, as \<open>cd\<close> does: with no selection and the cursor on line 6 of
  five, \<open>do_action\<close> raises \<open>KeyError\<close> at the first session and calls nothing.  The
  statement above leaves this case out.
\<close>

lemma do_action_cursor_past_end_raises:
  "do_action ex_env ex_view ''open'' [] [''cursor'' \<mapsto> 6] =
     (Inl (KeyError ''_defx_index'', ex_view), [])"
  by (simp add: do_action_def get_selected_candidates_def get_cursor_candidate_def
      empty_candidate_def ex_view_def ex_defxs_def ex_candidates_def)

end
